theory Spec2Isabelle
  imports Main "HOL-Library.Sublist"
begin

section \<open>Python values\<close>

text \<open>
  The task store keeps dictionaries whose fields hold whatever the callers pass in; the
  dispatcher passes values decoded from JSON straight through. The values modelled are
  \<open>None\<close>, booleans, integers, strings, lists and dictionaries with string keys.
  Floating-point numbers are not modelled. A string is a list of code points below 256.
\<close>

datatype pyval =
    PNone
  | PBool bool
  | PInt int
  | PStr string
  | PList "pyval list"
  | PDict "(string \<times> pyval) list"

text \<open>Truth value testing, as \<open>if v:\<close> and \<open>not v\<close> do it.\<close>

fun truthy :: "pyval \<Rightarrow> bool" where
  "truthy PNone = False"
| "truthy (PBool b) = b"
| "truthy (PInt n) = (n \<noteq> 0)"
| "truthy (PStr s) = (s \<noteq> [])"
| "truthy (PList xs) = (xs \<noteq> [])"
| "truthy (PDict kvs) = (kvs \<noteq> [])"

text \<open>
  The operator \<open>==\<close>. A boolean is an integer (\<open>True == 1\<close>); values of different kinds
  are otherwise unequal; lists are compared element by element, dictionaries key by key.
\<close>

fun py_eq :: "pyval \<Rightarrow> pyval \<Rightarrow> bool" where
  "py_eq PNone PNone = True"
| "py_eq (PBool a) (PBool b) = (a = b)"
| "py_eq (PBool a) (PInt n) = ((if a then 1 else 0) = n)"
| "py_eq (PInt n) (PBool b) = (n = (if b then 1 else 0))"
| "py_eq (PInt m) (PInt n) = (m = n)"
| "py_eq (PStr s) (PStr t) = (s = t)"
| "py_eq (PList xs) (PList ys) = list_all2 py_eq xs ys"
| "py_eq (PDict xs) (PDict ys) =
     (length xs = length ys \<and>
      list_all (\<lambda>(k, v). list_ex (\<lambda>(k', w). k' = k \<and> py_eq v w) ys) xs)"
| "py_eq _ _ = False"

section \<open>The task store (tools/task\_tools.py)\<close>

text \<open>
  A task is the dictionary built by \<open>create_task\<close>. Its \<open>id\<close> is always the integer
  computed at creation, \<open>created_at\<close> is always a timestamp string and \<open>completed_at\<close> is
  \<open>None\<close> or a timestamp string; the other fields hold the caller's values.
  The clock (\<open>datetime.now().isoformat()\<close>) is an argument of the operations that read it.
\<close>

record task =
  id_task :: int
  title :: pyval
  description :: pyval
  priority :: pyval
  due_date :: pyval
  status :: pyval
  created_at :: string
  completed_at :: "string option"

type_synonym tasks_db = "task list"

definition create_task ::
  "tasks_db \<Rightarrow> string \<Rightarrow> pyval \<Rightarrow> pyval \<Rightarrow> pyval \<Rightarrow> pyval \<Rightarrow> tasks_db \<times> task" where
  "create_task db now ttl descr prio due =
     (let t = \<lparr> id_task = int (length db) + 1,
                title = ttl,
                description = descr,
                priority = prio,
                due_date = due,
                status = PStr ''pending'',
                created_at = now,
                completed_at = None \<rparr>
      in (db @ [t], t))"

text \<open>\<open>list_tasks\<close>: all tasks when the filter is falsy, else those whose status equals it.\<close>

definition list_tasks :: "tasks_db \<Rightarrow> pyval \<Rightarrow> task list" where
  "list_tasks db st =
     (if truthy st then filter (\<lambda>t. py_eq (status t) st) db else db)"

text \<open>\<open>next((t for t in tasks_db if t["id"] == task_id), None)\<close>: the first match.\<close>

definition get_task :: "tasks_db \<Rightarrow> pyval \<Rightarrow> task option" where
  "get_task db task_id = find (\<lambda>t. py_eq (PInt (id_task t)) task_id) db"

text \<open>The assignments \<open>update_task\<close> makes to the task it has found, in the source's order.\<close>

definition apply_updates ::
  "string \<Rightarrow> pyval \<Rightarrow> pyval \<Rightarrow> pyval \<Rightarrow> pyval \<Rightarrow> pyval \<Rightarrow> task \<Rightarrow> task" where
  "apply_updates now ttl descr prio st due t =
     (let t1 = (if truthy ttl then t\<lparr>title := ttl\<rparr> else t);
          t2 = (if truthy descr then t1\<lparr>description := descr\<rparr> else t1);
          t3 = (if truthy prio then t2\<lparr>priority := prio\<rparr> else t2);
          t4 = (if truthy st
                then (let u = t3\<lparr>status := st\<rparr>
                      in if py_eq st (PStr ''completed'')
                         then u\<lparr>completed_at := Some now\<rparr> else u)
                else t3);
          t5 = (if truthy due then t4\<lparr>due_date := due\<rparr> else t4)
      in t5)"

text \<open>
  The task found is mutated in place: in the list, the first element with the id is
  replaced by its updated version and every other element stays.
\<close>

fun update_first :: "('a \<Rightarrow> bool) \<Rightarrow> ('a \<Rightarrow> 'a) \<Rightarrow> 'a list \<Rightarrow> 'a list" where
  "update_first P f [] = []"
| "update_first P f (x # xs) = (if P x then f x # xs else x # update_first P f xs)"

definition update_task ::
  "tasks_db \<Rightarrow> string \<Rightarrow> pyval \<Rightarrow> pyval \<Rightarrow> pyval \<Rightarrow> pyval \<Rightarrow> pyval \<Rightarrow> pyval
     \<Rightarrow> tasks_db \<times> task option" where
  "update_task db now task_id ttl descr prio st due =
     (case find (\<lambda>t. py_eq (PInt (id_task t)) task_id) db of
        None \<Rightarrow> (db, None)
      | Some t \<Rightarrow>
          (update_first (\<lambda>t. py_eq (PInt (id_task t)) task_id)
             (apply_updates now ttl descr prio st due) db,
           Some (apply_updates now ttl descr prio st due t)))"

definition delete_task :: "tasks_db \<Rightarrow> pyval \<Rightarrow> tasks_db \<times> bool" where
  "delete_task db task_id =
     (let initial_count = length db;
          db' = filter (\<lambda>t. \<not> py_eq (PInt (id_task t)) task_id) db
      in (db', length db' < initial_count))"

definition get_tasks_by_priority :: "tasks_db \<Rightarrow> pyval \<Rightarrow> task list" where
  "get_tasks_by_priority db prio = filter (\<lambda>t. py_eq (priority t) prio) db"

record statistics =
  total :: nat
  pending :: nat
  in_progress :: nat
  completed :: nat
  high_priority :: nat
  medium_priority :: nat
  low_priority :: nat

definition get_statistics :: "tasks_db \<Rightarrow> statistics" where
  "get_statistics db =
     \<lparr> total = length db,
       pending = length (filter (\<lambda>t. py_eq (status t) (PStr ''pending'')) db),
       in_progress = length (filter (\<lambda>t. py_eq (status t) (PStr ''in_progress'')) db),
       completed = length (filter (\<lambda>t. py_eq (status t) (PStr ''completed'')) db),
       high_priority = length (filter (\<lambda>t. py_eq (priority t) (PStr ''high'')) db),
       medium_priority = length (filter (\<lambda>t. py_eq (priority t) (PStr ''medium'')) db),
       low_priority = length (filter (\<lambda>t. py_eq (priority t) (PStr ''low'')) db) \<rparr>"

subsection \<open>Sequences of store operations\<close>

text \<open>
  A caller's request to the store, with the clock reading at the time of the call where
  the operation reads the clock.
\<close>

datatype store_op =
    Create string pyval pyval pyval pyval
  | Update string pyval pyval pyval pyval pyval pyval
  | Delete pyval

fun step :: "tasks_db \<Rightarrow> store_op \<Rightarrow> tasks_db" where
  "step db (Create now ttl descr prio due) = fst (create_task db now ttl descr prio due)"
| "step db (Update now task_id ttl descr prio st due) =
     fst (update_task db now task_id ttl descr prio st due)"
| "step db (Delete task_id) = fst (delete_task db task_id)"

definition run :: "store_op list \<Rightarrow> tasks_db" where
  "run ops = foldl step [] ops"

text \<open>The ids handed out by the create operations of a sequence, in order.\<close>

fun assigned_ids :: "tasks_db \<Rightarrow> store_op list \<Rightarrow> int list" where
  "assigned_ids db [] = []"
| "assigned_ids db (Create now ttl descr prio due # ops) =
     id_task (snd (create_task db now ttl descr prio due))
       # assigned_ids (step db (Create now ttl descr prio due)) ops"
| "assigned_ids db (x # ops) = assigned_ids (step db x) ops"

subsection \<open>Arguments restricted to the enumerated values\<close>

text \<open>
  The store validates nothing. These predicates describe callers that pass only the
  values the docstrings list: a priority of low, medium or high to create, and to update
  a priority and a status that are either skipped (falsy) or one of the listed values.
\<close>

definition enum_status :: "pyval \<Rightarrow> bool" where
  "enum_status v = (v = PStr ''pending'' \<or> v = PStr ''in_progress'' \<or> v = PStr ''completed'')"

definition enum_priority :: "pyval \<Rightarrow> bool" where
  "enum_priority v = (v = PStr ''low'' \<or> v = PStr ''medium'' \<or> v = PStr ''high'')"

fun enum_op :: "store_op \<Rightarrow> bool" where
  "enum_op (Create now ttl descr prio due) = enum_priority prio"
| "enum_op (Update now task_id ttl descr prio st due) =
     ((\<not> truthy prio \<or> enum_priority prio) \<and> (\<not> truthy st \<or> enum_status st))"
| "enum_op (Delete task_id) = True"

definition enum_task :: "task \<Rightarrow> bool" where
  "enum_task t = (enum_status (status t) \<and> enum_priority (priority t))"

section \<open>String operations of the agent\<close>

text \<open>\<open>str.lower()\<close> on code points below 256: A-Z and the Latin-1 capitals move by 32.\<close>

definition lower_char :: "char \<Rightarrow> char" where
  "lower_char c =
     (let n = (of_char c :: nat)
      in if (65 \<le> n \<and> n \<le> 90) \<or> (192 \<le> n \<and> n \<le> 222 \<and> n \<noteq> 215)
         then char_of (n + 32) else c)"

definition lower :: "string \<Rightarrow> string" where
  "lower s = map lower_char s"

text \<open>\<open>word in text\<close>: the word occurs in the text as a contiguous run.\<close>

fun py_in :: "string \<Rightarrow> string \<Rightarrow> bool" where
  "py_in word [] = (word = [])"
| "py_in word (c # cs) = (prefix word (c # cs) \<or> py_in word cs)"

text \<open>\<open>any(word in text for word in words)\<close>.\<close>

definition any_in :: "string list \<Rightarrow> string \<Rightarrow> bool" where
  "any_in wrds text = list_ex (\<lambda>word. py_in word text) wrds"

text \<open>\<open>str.strip()\<close>: the characters \<open>str.isspace\<close> accepts, below 256.\<close>

definition is_space :: "char \<Rightarrow> bool" where
  "is_space c =
     (let n = (of_char c :: nat)
      in (9 \<le> n \<and> n \<le> 13) \<or> (28 \<le> n \<and> n \<le> 32) \<or> n = 133 \<or> n = 160)"

definition strip :: "string \<Rightarrow> string" where
  "strip s = rev (dropWhile is_space (rev (dropWhile is_space s)))"

text \<open>
  \<open>str.split(sep)\<close> for a non-empty separator: the text is cut at each occurrence of the
  separator, scanning from the left. \<open>split_first\<close> finds the leftmost occurrence.
  Python raises on the empty separator; the agent only splits at its two fence markers,
  and the model leaves the text uncut there.
\<close>

fun split_first :: "string \<Rightarrow> string \<Rightarrow> (string \<times> string) option" where
  "split_first sep [] = None"
| "split_first sep (c # cs) =
     (if prefix sep (c # cs) then Some ([], drop (length sep) (c # cs))
      else map_option (\<lambda>(a, b). (c # a, b)) (split_first sep cs))"

function py_split :: "string \<Rightarrow> string \<Rightarrow> string list" where
  "py_split sep s =
     (if sep = [] then [s]
      else (case split_first sep s of
              None \<Rightarrow> [s]
            | Some (a, b) \<Rightarrow> a # py_split sep b))"
  by pat_completeness auto
termination
proof (relation "measure (\<lambda>(sep, s). length s)")
  show "wf (measure (\<lambda>(sep, s). length s))"
    by simp
next
  fix sep s :: string and x2 :: "string \<times> string" and a b :: string
  assume sep: "sep \<noteq> []" and found: "split_first sep s = Some x2" and x2: "(a, b) = x2"
  have shorter: "split_first sep s = Some (a, b) \<Longrightarrow> length b < length s" for a b
  proof (induction s arbitrary: a b)
    case Nil
    then show ?case by simp
  next
    case (Cons c cs)
    show ?case
    proof (cases "prefix sep (c # cs)")
      case True
      with Cons.prems sep show ?thesis by (cases sep) auto
    next
      case False
      with Cons.prems obtain a' where "split_first sep cs = Some (a', b)"
        by (auto split: prod.splits)
      with Cons.IH [of a' b] show ?thesis by simp
    qed
  qed
  from found x2 have "split_first sep s = Some (a, b)"
    by simp
  then have "length b < length s"
    by (rule shorter)
  then show "((sep, b), (sep, s)) \<in> measure (\<lambda>(sep, s). length s)"
    by simp
qed

text \<open>Indexing a list; \<open>None\<close> stands for the \<open>IndexError\<close> of an index out of range.\<close>

definition index :: "'a list \<Rightarrow> nat \<Rightarrow> 'a option" where
  "index xs i = (if i < length xs then Some (xs ! i) else None)"

section \<open>The agent (agents/google\_adk\_agent.py)\<close>

subsection \<open>Classifying a request\<close>

record parsed =
  action :: string
  request :: string

definition parse_user_request :: "string \<Rightarrow> parsed" where
  "parse_user_request user_request =
     (let request_lower = lower user_request
      in if any_in [''create'', ''add'', ''new task''] request_lower
           then \<lparr> action = ''create'', request = user_request \<rparr>
         else if any_in [''list'', ''show'', ''get tasks'', ''tasks''] request_lower
           then \<lparr> action = ''list'', request = user_request \<rparr>
         else if any_in [''update'', ''change'', ''modify'', ''mark''] request_lower
           then \<lparr> action = ''update'', request = user_request \<rparr>
         else if any_in [''statistics'', ''stats'', ''summary'', ''overview''] request_lower
           then \<lparr> action = ''statistics'', request = user_request \<rparr>
         else if any_in [''delete'', ''remove''] request_lower
           then \<lparr> action = ''delete'', request = user_request \<rparr>
         else \<lparr> action = ''general'', request = user_request \<rparr>)"

text \<open>
  The classification policy in the words of the specification: the categories in their
  priority order, each with its keyword set; the first category one of whose keywords
  occurs in the lower-cased text wins, and \<open>general\<close> is the answer when none does.
  A keyword occurs in a text when the text is some prefix, the keyword, and some suffix.
\<close>

definition occurs :: "string \<Rightarrow> string \<Rightarrow> bool" where
  "occurs word text = (\<exists>pre suf. text = pre @ word @ suf)"

definition categories :: "(string \<times> string set) list" where
  "categories =
     [(''create'', {''create'', ''add'', ''new task''}),
      (''list'', {''list'', ''show'', ''get tasks'', ''tasks''}),
      (''update'', {''update'', ''change'', ''modify'', ''mark''}),
      (''statistics'', {''statistics'', ''stats'', ''summary'', ''overview''}),
      (''delete'', {''delete'', ''remove''})]"

fun first_match :: "(string \<times> string set) list \<Rightarrow> string \<Rightarrow> string" where
  "first_match [] text = ''general''"
| "first_match ((tag, keywords) # rest) text =
     (if \<exists>word \<in> keywords. occurs word text then tag else first_match rest text)"

definition classify_spec :: "string \<Rightarrow> string" where
  "classify_spec text = first_match categories (lower text)"

subsection \<open>Extracting the parameters\<close>

text \<open>
  What the dispatcher returns. The fixed messages are their text; a message formatted
  from data is the data it is formatted from:
  \<^item> \<open>TaskCreated task\<close>: "Task created successfully!" with the task's id, title, priority
    and status;
  \<^item> \<open>TaskListing tasks\<close>: "Found n task(s):" and one entry per task;
  \<^item> \<open>TaskUpdated task_id task\<close>: "Task task_id updated successfully!" with the task's
    title, status and priority;
  \<^item> \<open>TaskNotFound task_id\<close>: "Task task_id not found.";
  \<^item> \<open>TaskDeleted task_id\<close>: "Task task_id deleted successfully!";
  \<^item> \<open>StatisticsReport stats\<close>: "Task Statistics:" and the seven counts;
  \<^item> \<open>ActionFailed e\<close>: "Error executing action: e", from the handler of the dispatcher.
\<close>

datatype error = AttributeError | GenerationError

datatype reply =
    Text string
  | TaskCreated task
  | TaskListing "task list"
  | TaskUpdated pyval task
  | TaskNotFound pyval
  | TaskDeleted pyval
  | StatisticsReport statistics
  | ActionFailed error

text \<open>
  The two prompts sent to the model, each a fixed template around its arguments: the
  extraction prompt quotes the user's request, the response prompt quotes the
  dispatcher's result and the user's request.
\<close>

datatype prompt =
    ExtractionPrompt string
  | ResponsePrompt reply string

text \<open>
  The text-generation call (\<open>self.model.generate_content(prompt).text\<close>) and the JSON
  parser (\<open>json.loads\<close>) are arguments of the model: \<open>None\<close> is the call raising. A
  dictionary is given by its items, each key once.

  \<open>clean_response\<close> is the text handed to the parser: the response stripped, and when it
  holds a Markdown code fence, the stripped text inside the first fence.
\<close>

definition clean_response :: "string \<Rightarrow> string option" where
  "clean_response text =
     (let response_text = strip text
      in if py_in ''```json'' response_text
           then (case index (py_split ''```json'' response_text) 1 of
                   None \<Rightarrow> None
                 | Some inner \<Rightarrow> map_option strip (index (py_split ''```'' inner) 0))
         else if py_in ''```'' response_text
           then (case index (py_split ''```'' response_text) 1 of
                   None \<Rightarrow> None
                 | Some inner \<Rightarrow> map_option strip (index (py_split ''```'' inner) 0))
         else Some response_text)"

definition extract_task_info ::
  "(prompt \<Rightarrow> string option) \<Rightarrow> (string \<Rightarrow> pyval option) \<Rightarrow> string \<Rightarrow> pyval" where
  "extract_task_info generate_content loads user_request =
     (case generate_content (ExtractionPrompt user_request) of
        None \<Rightarrow> PDict []
      | Some text \<Rightarrow>
          (case clean_response text of
             None \<Rightarrow> PDict []
           | Some response_text \<Rightarrow>
               (case loads response_text of
                  None \<Rightarrow> PDict []
                | Some params \<Rightarrow> params)))"

subsection \<open>Dispatching an action\<close>

text \<open>\<open>params.get(key, default)\<close> on the items of a dictionary.\<close>

definition dict_get :: "(string \<times> pyval) list \<Rightarrow> string \<Rightarrow> pyval \<Rightarrow> pyval" where
  "dict_get kvs k d = (case map_of kvs k of None \<Rightarrow> d | Some v \<Rightarrow> v)"

text \<open>
  The store operations the agent holds in \<open>self.task_tools\<close>. The dispatcher reaches the
  store only through them.
\<close>

record task_tools =
  create_task_of ::
    "tasks_db \<Rightarrow> string \<Rightarrow> pyval \<Rightarrow> pyval \<Rightarrow> pyval \<Rightarrow> pyval \<Rightarrow> tasks_db \<times> task"
  list_tasks_of :: "tasks_db \<Rightarrow> pyval \<Rightarrow> task list"
  update_task_of ::
    "tasks_db \<Rightarrow> string \<Rightarrow> pyval \<Rightarrow> pyval \<Rightarrow> pyval \<Rightarrow> pyval \<Rightarrow> pyval \<Rightarrow> pyval
       \<Rightarrow> tasks_db \<times> task option"
  delete_task_of :: "tasks_db \<Rightarrow> pyval \<Rightarrow> tasks_db \<times> bool"
  get_statistics_of :: "tasks_db \<Rightarrow> statistics"

definition TaskTools :: task_tools where
  "TaskTools =
     \<lparr> create_task_of = create_task,
       list_tasks_of = list_tasks,
       update_task_of = update_task,
       delete_task_of = delete_task,
       get_statistics_of = get_statistics \<rparr>"

text \<open>
  \<open>_execute_action\<close>. In the create, list, update and delete branches the first statement
  is \<open>params.get\<close>, which raises \<open>AttributeError\<close> when the parsed JSON is not a dictionary;
  the handler turns that into the "Error executing action" message, before any store call.
\<close>

definition execute_action ::
  "task_tools \<Rightarrow> tasks_db \<Rightarrow> string \<Rightarrow> string \<Rightarrow> pyval \<Rightarrow> tasks_db \<times> reply" where
  "execute_action tools db now act params =
     (if act = ''create'' then
        (case params of
           PDict kvs \<Rightarrow>
             (let ttl = dict_get kvs ''title'' (PStr ''Untitled Task'');
                  descr = dict_get kvs ''description'' (PStr []);
                  prio = dict_get kvs ''priority'' (PStr ''medium'');
                  due = dict_get kvs ''due_date'' PNone;
                  (db', t) = create_task_of tools db now ttl descr prio due
              in (db', TaskCreated t))
         | _ \<Rightarrow> (db, ActionFailed AttributeError))
      else if act = ''list'' then
        (case params of
           PDict kvs \<Rightarrow>
             (let st = dict_get kvs ''status'' PNone;
                  tasks = list_tasks_of tools db st
              in if tasks = [] then (db, Text ''No tasks found.'')
                 else (db, TaskListing tasks))
         | _ \<Rightarrow> (db, ActionFailed AttributeError))
      else if act = ''update'' then
        (case params of
           PDict kvs \<Rightarrow>
             (let task_id = dict_get kvs ''task_id'' PNone
              in if \<not> truthy task_id
                 then (db, Text ''Error: Task ID is required for updates.'')
                 else
                   (case update_task_of tools db now task_id
                           (dict_get kvs ''title'' PNone)
                           (dict_get kvs ''description'' PNone)
                           (dict_get kvs ''priority'' PNone)
                           (dict_get kvs ''status'' PNone)
                           PNone of
                      (db', Some t) \<Rightarrow> (db', TaskUpdated task_id t)
                    | (db', None) \<Rightarrow> (db', TaskNotFound task_id)))
         | _ \<Rightarrow> (db, ActionFailed AttributeError))
      else if act = ''delete'' then
        (case params of
           PDict kvs \<Rightarrow>
             (let task_id = dict_get kvs ''task_id'' PNone
              in if \<not> truthy task_id
                 then (db, Text ''Error: Task ID is required for deletion.'')
                 else
                   (case delete_task_of tools db task_id of
                      (db', True) \<Rightarrow> (db', TaskDeleted task_id)
                    | (db', False) \<Rightarrow> (db', TaskNotFound task_id)))
         | _ \<Rightarrow> (db, ActionFailed AttributeError))
      else if act = ''statistics'' then
        (db, StatisticsReport (get_statistics_of tools db))
      else
        (db, Text (''I understand your request, but I'' @ [CHR 0x27]
                   @ ''m not sure how to handle it. Please try:'' @ [CHR 0x0A]
                   @ ''- Creating a task'' @ [CHR 0x0A]
                   @ ''- Listing tasks'' @ [CHR 0x0A]
                   @ ''- Updating a task'' @ [CHR 0x0A]
                   @ ''- Getting statistics'')))"

subsection \<open>Processing a request\<close>

text \<open>
  \<open>process_request\<close> returns the model's phrasing of the result, or, when that call
  raises, the message "I encountered an error: e". The store keeps what the dispatcher
  did to it in both cases.
\<close>

datatype answer = Answer string | EncounteredError error

definition process_request ::
  "task_tools \<Rightarrow> (prompt \<Rightarrow> string option) \<Rightarrow> (string \<Rightarrow> pyval option)
     \<Rightarrow> tasks_db \<Rightarrow> string \<Rightarrow> string \<Rightarrow> tasks_db \<times> answer" where
  "process_request tools generate_content loads db now user_request =
     (let act = action (parse_user_request user_request);
          params = (if act \<in> set [''create'', ''update'', ''delete'']
                    then extract_task_info generate_content loads user_request
                    else PDict []);
          (db', result) = execute_action tools db now act params
      in case generate_content (ResponsePrompt result user_request) of
           None \<Rightarrow> (db', EncounteredError GenerationError)
         | Some final_result \<Rightarrow> (db', Answer final_result))"

section \<open>Properties of the task store\<close>

subsection \<open>Helper facts\<close>

lemma create_task_id:
  "id_task (snd (create_task db now ttl descr prio due)) = int (length db) + 1"
  by (simp add: create_task_def Let_def)

lemma py_eq_str: "py_eq v (PStr s) = (v = PStr s)"
  by (cases v) auto

lemma find_update_first:
  "find P xs = Some t \<Longrightarrow> (\<And>x. P (f x) = P x) \<Longrightarrow> find P (update_first P f xs) = Some (f t)"
  by (induction xs) (auto split: if_splits)

lemma find_SomeD: "find P xs = Some t \<Longrightarrow> t \<in> set xs \<and> P t"
  by (induction xs) (auto split: if_splits)

lemma update_first_all:
  "list_all Q xs \<Longrightarrow> (\<And>x. Q x \<Longrightarrow> Q (f x)) \<Longrightarrow> list_all Q (update_first P f xs)"
  by (induction xs) auto

lemma update_first_map:
  "(\<And>x. g (f x) = g x) \<Longrightarrow> map g (update_first P f xs) = map g xs"
  by (induction xs) auto

lemma apply_updates_id [simp]:
  "id_task (apply_updates now ttl descr prio st due t) = id_task t"
  by (simp add: apply_updates_def Let_def)

lemma apply_updates_fields:
  "title (apply_updates now ttl descr prio st due t) = (if truthy ttl then ttl else title t)"
  "description (apply_updates now ttl descr prio st due t)
     = (if truthy descr then descr else description t)"
  "priority (apply_updates now ttl descr prio st due t)
     = (if truthy prio then prio else priority t)"
  "status (apply_updates now ttl descr prio st due t) = (if truthy st then st else status t)"
  "due_date (apply_updates now ttl descr prio st due t)
     = (if truthy due then due else due_date t)"
  by (simp_all add: apply_updates_def Let_def)

lemma apply_updates_completed_at:
  "completed_at (apply_updates now ttl descr prio st due t) =
     (if st = PStr ''completed'' then Some now else completed_at t)"
  by (cases st) (auto simp add: apply_updates_def Let_def)

lemma update_task_found:
  assumes "get_task db task_id = Some t"
  shows "update_task db now task_id ttl descr prio st due =
           (fst (update_task db now task_id ttl descr prio st due),
            Some (apply_updates now ttl descr prio st due t))"
    and "get_task (fst (update_task db now task_id ttl descr prio st due)) task_id =
           Some (apply_updates now ttl descr prio st due t)"
  using assms by (simp_all add: update_task_def get_task_def find_update_first)

lemma update_task_absent:
  "get_task db task_id = None \<Longrightarrow>
     update_task db now task_id ttl descr prio st due = (db, None)"
  by (simp add: update_task_def get_task_def)

lemma delete_task_absent:
  "get_task db task_id = None \<Longrightarrow> delete_task db task_id = (db, False)"
proof -
  assume "get_task db task_id = None"
  then have "\<forall>t \<in> set db. \<not> py_eq (PInt (id_task t)) task_id"
    by (simp add: get_task_def find_None_iff)
  then have "filter (\<lambda>t. \<not> py_eq (PInt (id_task t)) task_id) db = db"
    by (simp add: filter_id_conv)
  then show ?thesis
    by (simp add: delete_task_def Let_def)
qed

lemma delete_task_present:
  assumes "get_task db task_id = Some t"
  shows "delete_task db task_id
           = (filter (\<lambda>u. \<not> py_eq (PInt (id_task u)) task_id) db, True)"
proof -
  from assms have "t \<in> set db" and "py_eq (PInt (id_task t)) task_id"
    by (auto simp: get_task_def dest: find_SomeD)
  then have "length (filter (\<lambda>u. \<not> py_eq (PInt (id_task u)) task_id) db) < length db"
    by (intro length_filter_less) auto
  then show ?thesis
    by (simp add: delete_task_def Let_def)
qed

lemma apply_updates_enum:
  "enum_task t \<Longrightarrow> \<not> truthy prio \<or> enum_priority prio \<Longrightarrow> \<not> truthy st \<or> enum_status st
     \<Longrightarrow> enum_task (apply_updates now ttl descr prio st due t)"
  by (auto simp: enum_task_def apply_updates_def Let_def)

lemma step_enum:
  assumes "list_all enum_task db" and "enum_op x"
  shows "list_all enum_task (step db x)"
proof (cases x)
  case (Create now ttl descr prio due)
  with assms show ?thesis
    by (simp add: create_task_def enum_task_def enum_status_def Let_def)
next
  case (Update now task_id ttl descr prio st due)
  with assms show ?thesis
    by (auto simp: update_task_def split: option.splits
          intro!: update_first_all apply_updates_enum)
next
  case (Delete task_id)
  with assms show ?thesis
    by (simp add: delete_task_def list_all_iff Let_def)
qed

lemma foldl_step_enum:
  "list_all enum_task db \<Longrightarrow> list_all enum_op ops \<Longrightarrow> list_all enum_task (foldl step db ops)"
  by (induction ops arbitrary: db) (auto intro: step_enum)

lemma status_counts:
  "list_all (\<lambda>t. enum_status (status t)) db \<Longrightarrow>
     length (filter (\<lambda>t. py_eq (status t) (PStr ''pending'')) db)
   + length (filter (\<lambda>t. py_eq (status t) (PStr ''in_progress'')) db)
   + length (filter (\<lambda>t. py_eq (status t) (PStr ''completed'')) db) = length db"
  by (induction db) (auto simp: enum_status_def)

lemma priority_counts:
  "list_all (\<lambda>t. enum_priority (priority t)) db \<Longrightarrow>
     length (filter (\<lambda>t. py_eq (priority t) (PStr ''low'')) db)
   + length (filter (\<lambda>t. py_eq (priority t) (PStr ''medium'')) db)
   + length (filter (\<lambda>t. py_eq (priority t) (PStr ''high'')) db) = length db"
  by (induction db) (auto simp: enum_priority_def)

subsection \<open>Identifiers\<close>

text \<open>
  Claim C1. The claim: over any sequence of creates and deletes from the empty store, the
  ids handed out are strictly increasing and never handed out twice, each being the
  number of tasks ever created plus one. The store computes the id as the current length
  of the list plus one, so a delete lowers the next id: two creates, a delete of task 1
  and a third create hand out 1, 2 and 2 again, where the claim requires 3.
\<close>

theorem create_after_delete_reuses_id:
  "assigned_ids []
     [Create ''t1'' (PStr ''a'') (PStr []) (PStr ''medium'') PNone,
      Create ''t2'' (PStr ''b'') (PStr []) (PStr ''medium'') PNone,
      Delete (PInt 1),
      Create ''t3'' (PStr ''c'') (PStr []) (PStr ''medium'') PNone] = [1, 2, 2]"
  by (simp add: create_task_def delete_task_def Let_def)

text \<open>
  Claim C2. The claim: in every state reachable from the empty store the ids in the store
  are pairwise distinct. After two creates, a delete of task 1 and a third create the
  store holds two tasks, both with id 2.
\<close>

theorem reachable_store_with_duplicate_id:
  "map id_task (run
     [Create ''t1'' (PStr ''a'') (PStr []) (PStr ''medium'') PNone,
      Create ''t2'' (PStr ''b'') (PStr []) (PStr ''medium'') PNone,
      Delete (PInt 1),
      Create ''t3'' (PStr ''c'') (PStr []) (PStr ''medium'') PNone]) = [2, 2]"
  by (simp add: run_def create_task_def delete_task_def Let_def)

subsection \<open>Statistics\<close>

text \<open>
  Claim C3, as stated: in every reachable state the counts by status add up to the
  total, and so do the counts by priority. The store accepts any priority at creation
  and any status at update, and a task whose priority or status is not one of the three
  counted values is in the total and in none of the counts.
\<close>

theorem statistics_sums_counterexample:
  "\<not> (pending (get_statistics (run
          [Create ''t1'' (PStr ''a'') (PStr []) (PStr ''urgent'') PNone,
           Update ''t2'' (PInt 1) PNone PNone PNone (PStr ''blocked'') PNone]))
        + in_progress (get_statistics (run
          [Create ''t1'' (PStr ''a'') (PStr []) (PStr ''urgent'') PNone,
           Update ''t2'' (PInt 1) PNone PNone PNone (PStr ''blocked'') PNone]))
        + completed (get_statistics (run
          [Create ''t1'' (PStr ''a'') (PStr []) (PStr ''urgent'') PNone,
           Update ''t2'' (PInt 1) PNone PNone PNone (PStr ''blocked'') PNone]))
      = total (get_statistics (run
          [Create ''t1'' (PStr ''a'') (PStr []) (PStr ''urgent'') PNone,
           Update ''t2'' (PInt 1) PNone PNone PNone (PStr ''blocked'') PNone]))
    \<and> low_priority (get_statistics (run
          [Create ''t1'' (PStr ''a'') (PStr []) (PStr ''urgent'') PNone,
           Update ''t2'' (PInt 1) PNone PNone PNone (PStr ''blocked'') PNone]))
        + medium_priority (get_statistics (run
          [Create ''t1'' (PStr ''a'') (PStr []) (PStr ''urgent'') PNone,
           Update ''t2'' (PInt 1) PNone PNone PNone (PStr ''blocked'') PNone]))
        + high_priority (get_statistics (run
          [Create ''t1'' (PStr ''a'') (PStr []) (PStr ''urgent'') PNone,
           Update ''t2'' (PInt 1) PNone PNone PNone (PStr ''blocked'') PNone]))
      = total (get_statistics (run
          [Create ''t1'' (PStr ''a'') (PStr []) (PStr ''urgent'') PNone,
           Update ''t2'' (PInt 1) PNone PNone PNone (PStr ''blocked'') PNone])))"
  by (simp add: run_def create_task_def update_task_def apply_updates_def
        get_statistics_def Let_def)

text \<open>
  Claim C3, amended: in every state reached from the empty store by creates, updates and
  deletes whose priority and status arguments are enumerated values (a priority of low,
  medium or high at creation; at update a priority and a status that are falsy, hence
  skipped, or enumerated), the counts by status add up to the total and the counts by
  priority add up to the total.
\<close>

theorem statistics_sums_enumerated:
  assumes "list_all enum_op ops"
  shows "pending (get_statistics (run ops)) + in_progress (get_statistics (run ops))
           + completed (get_statistics (run ops)) = total (get_statistics (run ops))
       \<and> low_priority (get_statistics (run ops)) + medium_priority (get_statistics (run ops))
           + high_priority (get_statistics (run ops)) = total (get_statistics (run ops))"
proof -
  have inv: "list_all enum_task (run ops)"
    unfolding run_def using assms by (intro foldl_step_enum) simp_all
  have s: "list_all (\<lambda>t. enum_status (status t)) (run ops)"
    using inv by (simp add: list_all_iff enum_task_def)
  have p: "list_all (\<lambda>t. enum_priority (priority t)) (run ops)"
    using inv by (simp add: list_all_iff enum_task_def)
  show ?thesis
    using status_counts [OF s] priority_counts [OF p] by (simp add: get_statistics_def)
qed

theorem statistics_sums_enumerated_witness:
  "list_all enum_op
     [Create ''t1'' (PStr ''a'') (PStr []) (PStr ''high'') PNone,
      Create ''t2'' (PStr ''b'') (PStr []) (PStr ''low'') PNone,
      Update ''t3'' (PInt 1) PNone PNone PNone (PStr ''completed'') PNone,
      Delete (PInt 7)]
   \<and> get_statistics (run
     [Create ''t1'' (PStr ''a'') (PStr []) (PStr ''high'') PNone,
      Create ''t2'' (PStr ''b'') (PStr []) (PStr ''low'') PNone,
      Update ''t3'' (PInt 1) PNone PNone PNone (PStr ''completed'') PNone,
      Delete (PInt 7)])
     = \<lparr> total = 2, pending = 1, in_progress = 0, completed = 1,
         high_priority = 1, medium_priority = 0, low_priority = 1 \<rparr>
   \<and> pending (get_statistics (run
     [Create ''t1'' (PStr ''a'') (PStr []) (PStr ''high'') PNone,
      Create ''t2'' (PStr ''b'') (PStr []) (PStr ''low'') PNone,
      Update ''t3'' (PInt 1) PNone PNone PNone (PStr ''completed'') PNone,
      Delete (PInt 7)]))
     + in_progress (get_statistics (run
     [Create ''t1'' (PStr ''a'') (PStr []) (PStr ''high'') PNone,
      Create ''t2'' (PStr ''b'') (PStr []) (PStr ''low'') PNone,
      Update ''t3'' (PInt 1) PNone PNone PNone (PStr ''completed'') PNone,
      Delete (PInt 7)]))
     + completed (get_statistics (run
     [Create ''t1'' (PStr ''a'') (PStr []) (PStr ''high'') PNone,
      Create ''t2'' (PStr ''b'') (PStr []) (PStr ''low'') PNone,
      Update ''t3'' (PInt 1) PNone PNone PNone (PStr ''completed'') PNone,
      Delete (PInt 7)]))
     = total (get_statistics (run
     [Create ''t1'' (PStr ''a'') (PStr []) (PStr ''high'') PNone,
      Create ''t2'' (PStr ''b'') (PStr []) (PStr ''low'') PNone,
      Update ''t3'' (PInt 1) PNone PNone PNone (PStr ''completed'') PNone,
      Delete (PInt 7)]))"
proof -
  let ?ops = "[Create ''t1'' (PStr ''a'') (PStr []) (PStr ''high'') PNone,
      Create ''t2'' (PStr ''b'') (PStr []) (PStr ''low'') PNone,
      Update ''t3'' (PInt 1) PNone PNone PNone (PStr ''completed'') PNone,
      Delete (PInt 7)]"
  have h: "list_all enum_op ?ops"
    by (simp add: enum_priority_def enum_status_def)
  have v: "get_statistics (run ?ops)
     = \<lparr> total = 2, pending = 1, in_progress = 0, completed = 1,
         high_priority = 1, medium_priority = 0, low_priority = 1 \<rparr>"
    by (simp add: run_def create_task_def update_task_def apply_updates_def delete_task_def
          get_statistics_def Let_def)
  from h v statistics_sums_enumerated [OF h] show ?thesis
    by blast
qed

subsection \<open>Updating a task\<close>

text \<open>
  Claim C4. For an id present in the store, update leaves a field unchanged when the
  value given for it is falsy (None, the empty string, zero, False, an empty list or
  dictionary) and overwrites it when the value is truthy; this holds for title,
  description, priority, status and due date, of the task update returns, which is the
  task then found in the store under the id. Consequently a field that holds a non-empty
  value holds one after any update: update cannot clear it.
\<close>

theorem update_task_falsy_skip:
  assumes "get_task db task_id = Some t"
  shows "\<exists>db' t'. update_task db now task_id ttl descr prio st due = (db', Some t')
           \<and> get_task db' task_id = Some t'
           \<and> title t' = (if truthy ttl then ttl else title t)
           \<and> description t' = (if truthy descr then descr else description t)
           \<and> priority t' = (if truthy prio then prio else priority t)
           \<and> status t' = (if truthy st then st else status t)
           \<and> due_date t' = (if truthy due then due else due_date t)
           \<and> (truthy (title t) \<longrightarrow> truthy (title t'))
           \<and> (truthy (description t) \<longrightarrow> truthy (description t'))
           \<and> (truthy (priority t) \<longrightarrow> truthy (priority t'))
           \<and> (truthy (status t) \<longrightarrow> truthy (status t'))
           \<and> (truthy (due_date t) \<longrightarrow> truthy (due_date t'))"
proof -
  let ?t' = "apply_updates now ttl descr prio st due t"
  let ?db' = "fst (update_task db now task_id ttl descr prio st due)"
  have "update_task db now task_id ttl descr prio st due = (?db', Some ?t')"
    by (rule update_task_found(1) [OF assms])
  moreover have "get_task ?db' task_id = Some ?t'"
    by (rule update_task_found(2) [OF assms])
  ultimately show ?thesis
    by (intro exI [of _ ?db'] exI [of _ ?t']) (simp add: apply_updates_fields)
qed

theorem update_task_falsy_skip_witness:
  "get_task
     [\<lparr> id_task = 1, title = PStr ''Old'', description = PStr ''d'', priority = PStr ''low'',
        due_date = PNone, status = PStr ''pending'', created_at = ''t0'',
        completed_at = None \<rparr>] (PInt 1)
     = Some \<lparr> id_task = 1, title = PStr ''Old'', description = PStr ''d'',
              priority = PStr ''low'', due_date = PNone, status = PStr ''pending'',
              created_at = ''t0'', completed_at = None \<rparr>
   \<and> update_task
       [\<lparr> id_task = 1, title = PStr ''Old'', description = PStr ''d'', priority = PStr ''low'',
          due_date = PNone, status = PStr ''pending'', created_at = ''t0'',
          completed_at = None \<rparr>] ''t1'' (PInt 1) (PStr []) PNone (PStr ''high'') PNone PNone
     = ([\<lparr> id_task = 1, title = PStr ''Old'', description = PStr ''d'',
            priority = PStr ''high'', due_date = PNone, status = PStr ''pending'',
            created_at = ''t0'', completed_at = None \<rparr>],
        Some \<lparr> id_task = 1, title = PStr ''Old'', description = PStr ''d'',
               priority = PStr ''high'', due_date = PNone, status = PStr ''pending'',
               created_at = ''t0'', completed_at = None \<rparr>)"
proof -
  let ?t = "\<lparr> id_task = 1, title = PStr ''Old'', description = PStr ''d'',
              priority = PStr ''low'', due_date = PNone, status = PStr ''pending'',
              created_at = ''t0'', completed_at = None \<rparr>"
  have h: "get_task [?t] (PInt 1) = Some ?t"
    by (simp add: get_task_def)
  from update_task_falsy_skip [OF h, of "''t1''" "PStr []" PNone "PStr ''high''" PNone PNone]
  obtain db' t' where u: "update_task [?t] ''t1'' (PInt 1) (PStr []) PNone (PStr ''high'')
                            PNone PNone = (db', Some t')"
    and f: "title t' = PStr ''Old''" "priority t' = PStr ''high''"
    by auto
  have "update_task [?t] ''t1'' (PInt 1) (PStr []) PNone (PStr ''high'') PNone PNone
          = ([?t\<lparr>priority := PStr ''high''\<rparr>], Some (?t\<lparr>priority := PStr ''high''\<rparr>))"
    by (simp add: update_task_def apply_updates_def)
  with h show ?thesis
    by simp
qed

text \<open>
  Claim C5. For an id present in the store: an update with status "completed" returns
  the task with \<open>completed_at\<close> set to the time of the update, not None; a following
  update with status "pending" changes the status and leaves \<open>completed_at\<close> at that
  time; and an update whose status is anything but "completed" (falsy ones included)
  changes the \<open>completed_at\<close> of no task in the store.
\<close>

theorem update_task_completed_at:
  assumes "get_task db task_id = Some t"
  shows "(\<exists>db1 t1 db2 t2.
           update_task db now task_id ttl descr prio (PStr ''completed'') due = (db1, Some t1)
         \<and> get_task db1 task_id = Some t1
         \<and> status t1 = PStr ''completed''
         \<and> completed_at t1 = Some now
         \<and> update_task db1 later task_id PNone PNone PNone (PStr ''pending'') PNone
             = (db2, Some t2)
         \<and> get_task db2 task_id = Some t2
         \<and> status t2 = PStr ''pending''
         \<and> completed_at t2 = Some now)
       \<and> (st \<noteq> PStr ''completed'' \<longrightarrow>
           map completed_at (fst (update_task db now task_id ttl descr prio st due))
             = map completed_at db)"
proof
  let ?t1 = "apply_updates now ttl descr prio (PStr ''completed'') due t"
  let ?db1 = "fst (update_task db now task_id ttl descr prio (PStr ''completed'') due)"
  let ?t2 = "apply_updates later PNone PNone PNone (PStr ''pending'') PNone ?t1"
  let ?db2 = "fst (update_task ?db1 later task_id PNone PNone PNone (PStr ''pending'') PNone)"
  have g1: "get_task ?db1 task_id = Some ?t1"
    by (rule update_task_found(2) [OF assms])
  have u1: "update_task db now task_id ttl descr prio (PStr ''completed'') due
              = (?db1, Some ?t1)"
    by (rule update_task_found(1) [OF assms])
  have u2: "update_task ?db1 later task_id PNone PNone PNone (PStr ''pending'') PNone
              = (?db2, Some ?t2)"
    by (rule update_task_found(1) [OF g1])
  have g2: "get_task ?db2 task_id = Some ?t2"
    by (rule update_task_found(2) [OF g1])
  have s1: "status ?t1 = PStr ''completed''" and c1: "completed_at ?t1 = Some now"
    by (simp_all add: apply_updates_fields apply_updates_completed_at)
  have s2: "status ?t2 = PStr ''pending''" and c2: "completed_at ?t2 = Some now"
    by (simp_all add: apply_updates_fields apply_updates_completed_at)
  from u1 g1 s1 c1 u2 g2 s2 c2
  show "\<exists>db1 t1 db2 t2.
           update_task db now task_id ttl descr prio (PStr ''completed'') due = (db1, Some t1)
         \<and> get_task db1 task_id = Some t1
         \<and> status t1 = PStr ''completed''
         \<and> completed_at t1 = Some now
         \<and> update_task db1 later task_id PNone PNone PNone (PStr ''pending'') PNone
             = (db2, Some t2)
         \<and> get_task db2 task_id = Some t2
         \<and> status t2 = PStr ''pending''
         \<and> completed_at t2 = Some now"
    by blast
next
  show "st \<noteq> PStr ''completed'' \<longrightarrow>
           map completed_at (fst (update_task db now task_id ttl descr prio st due))
             = map completed_at db"
    by (simp add: update_task_def update_first_map apply_updates_completed_at
          split: option.splits)
qed

theorem update_task_completed_at_witness:
  "get_task
     [\<lparr> id_task = 1, title = PStr ''a'', description = PStr [], priority = PStr ''low'',
        due_date = PNone, status = PStr ''pending'', created_at = ''t0'',
        completed_at = None \<rparr>] (PInt 1)
     = Some \<lparr> id_task = 1, title = PStr ''a'', description = PStr [],
              priority = PStr ''low'', due_date = PNone, status = PStr ''pending'',
              created_at = ''t0'', completed_at = None \<rparr>
   \<and> map completed_at (fst (update_task
       (fst (update_task
          [\<lparr> id_task = 1, title = PStr ''a'', description = PStr [], priority = PStr ''low'',
             due_date = PNone, status = PStr ''pending'', created_at = ''t0'',
             completed_at = None \<rparr>]
          ''t1'' (PInt 1) PNone PNone PNone (PStr ''completed'') PNone))
       ''t2'' (PInt 1) PNone PNone PNone (PStr ''pending'') PNone))
     = [Some ''t1'']
   \<and> PStr ''in_progress'' \<noteq> PStr ''completed''
   \<and> map completed_at (fst (update_task
        [\<lparr> id_task = 1, title = PStr ''a'', description = PStr [], priority = PStr ''low'',
           due_date = PNone, status = PStr ''pending'', created_at = ''t0'',
           completed_at = None \<rparr>]
        ''t1'' (PInt 1) PNone PNone PNone (PStr ''in_progress'') PNone))
     = [None]"
proof -
  let ?t = "\<lparr> id_task = 1, title = PStr ''a'', description = PStr [],
              priority = PStr ''low'', due_date = PNone, status = PStr ''pending'',
              created_at = ''t0'', completed_at = None \<rparr>"
  have h: "get_task [?t] (PInt 1) = Some ?t"
    by (simp add: get_task_def)
  have n: "PStr ''in_progress'' \<noteq> PStr ''completed''"
    by simp
  from update_task_completed_at [OF h, of "''t1''" PNone PNone PNone PNone "''t2''"
         "PStr ''in_progress''"] n
  have keep: "map completed_at (fst (update_task [?t] ''t1'' (PInt 1) PNone PNone PNone
                 (PStr ''in_progress'') PNone)) = map completed_at [?t]"
    by blast
  have twice: "map completed_at (fst (update_task
       (fst (update_task [?t] ''t1'' (PInt 1) PNone PNone PNone (PStr ''completed'') PNone))
       ''t2'' (PInt 1) PNone PNone PNone (PStr ''pending'') PNone)) = [Some ''t1'']"
    by (simp add: update_task_def apply_updates_def)
  from h n keep twice show ?thesis
    by simp
qed

text \<open>
  Claim C10. For a task whose status is already "completed", whatever its
  \<open>completed_at\<close>, a further update with status "completed" sets \<open>completed_at\<close> to the
  time of that update: of two such updates in a row, at times \<open>now\<close> and \<open>later\<close>, the
  task keeps \<open>later\<close>.
\<close>

theorem update_task_completed_again:
  assumes "get_task db task_id = Some t" and "status t = PStr ''completed''"
  shows "\<exists>db1 t1 db2 t2.
           update_task db now task_id PNone PNone PNone (PStr ''completed'') PNone
             = (db1, Some t1)
         \<and> get_task db1 task_id = Some t1
         \<and> status t1 = PStr ''completed''
         \<and> completed_at t1 = Some now
         \<and> update_task db1 later task_id PNone PNone PNone (PStr ''completed'') PNone
             = (db2, Some t2)
         \<and> get_task db2 task_id = Some t2
         \<and> status t2 = PStr ''completed''
         \<and> completed_at t2 = Some later"
proof -
  let ?t1 = "apply_updates now PNone PNone PNone (PStr ''completed'') PNone t"
  let ?db1 = "fst (update_task db now task_id PNone PNone PNone (PStr ''completed'') PNone)"
  let ?t2 = "apply_updates later PNone PNone PNone (PStr ''completed'') PNone ?t1"
  let ?db2 = "fst (update_task ?db1 later task_id PNone PNone PNone (PStr ''completed'') PNone)"
  have g1: "get_task ?db1 task_id = Some ?t1"
    by (rule update_task_found(2) [OF assms(1)])
  have u1: "update_task db now task_id PNone PNone PNone (PStr ''completed'') PNone
              = (?db1, Some ?t1)"
    by (rule update_task_found(1) [OF assms(1)])
  have u2: "update_task ?db1 later task_id PNone PNone PNone (PStr ''completed'') PNone
              = (?db2, Some ?t2)"
    by (rule update_task_found(1) [OF g1])
  have g2: "get_task ?db2 task_id = Some ?t2"
    by (rule update_task_found(2) [OF g1])
  have s1: "status ?t1 = PStr ''completed''" and c1: "completed_at ?t1 = Some now"
    by (simp_all add: apply_updates_fields apply_updates_completed_at)
  have s2: "status ?t2 = PStr ''completed''" and c2: "completed_at ?t2 = Some later"
    by (simp_all add: apply_updates_fields apply_updates_completed_at)
  from u1 g1 s1 c1 u2 g2 s2 c2 show ?thesis
    by blast
qed

theorem update_task_completed_again_witness:
  "get_task
     [\<lparr> id_task = 1, title = PStr ''a'', description = PStr [], priority = PStr ''low'',
        due_date = PNone, status = PStr ''completed'', created_at = ''t0'',
        completed_at = Some ''t1'' \<rparr>] (PInt 1)
     = Some \<lparr> id_task = 1, title = PStr ''a'', description = PStr [],
              priority = PStr ''low'', due_date = PNone, status = PStr ''completed'',
              created_at = ''t0'', completed_at = Some ''t1'' \<rparr>
   \<and> status \<lparr> id_task = 1, title = PStr ''a'', description = PStr [],
              priority = PStr ''low'', due_date = PNone, status = PStr ''completed'',
              created_at = ''t0'', completed_at = Some ''t1'' \<rparr> = PStr ''completed''
   \<and> update_task
       [\<lparr> id_task = 1, title = PStr ''a'', description = PStr [], priority = PStr ''low'',
          due_date = PNone, status = PStr ''completed'', created_at = ''t0'',
          completed_at = Some ''t1'' \<rparr>]
       ''t2'' (PInt 1) PNone PNone PNone (PStr ''completed'') PNone
     = ([\<lparr> id_task = 1, title = PStr ''a'', description = PStr [], priority = PStr ''low'',
            due_date = PNone, status = PStr ''completed'', created_at = ''t0'',
            completed_at = Some ''t2'' \<rparr>],
        Some \<lparr> id_task = 1, title = PStr ''a'', description = PStr [],
               priority = PStr ''low'', due_date = PNone, status = PStr ''completed'',
               created_at = ''t0'', completed_at = Some ''t2'' \<rparr>)"
proof -
  let ?t = "\<lparr> id_task = 1, title = PStr ''a'', description = PStr [],
              priority = PStr ''low'', due_date = PNone, status = PStr ''completed'',
              created_at = ''t0'', completed_at = Some ''t1'' \<rparr>"
  have h: "get_task [?t] (PInt 1) = Some ?t"
    by (simp add: get_task_def)
  have s: "status ?t = PStr ''completed''"
    by simp
  from update_task_completed_again [OF h s, of "''t2''" "''t3''"]
  obtain db1 t1 where u: "update_task [?t] ''t2'' (PInt 1) PNone PNone PNone
                            (PStr ''completed'') PNone = (db1, Some t1)"
    and c: "completed_at t1 = Some ''t2''"
    by blast
  have "update_task [?t] ''t2'' (PInt 1) PNone PNone PNone (PStr ''completed'') PNone
          = ([?t\<lparr>completed_at := Some ''t2''\<rparr>], Some (?t\<lparr>completed_at := Some ''t2''\<rparr>))"
    by (simp add: update_task_def apply_updates_def)
  with h s show ?thesis
    by simp
qed

subsection \<open>Deleting a task\<close>

text \<open>
  Claim C6. The claim: delete of an absent id returns false and changes nothing; delete
  of a present id removes exactly that one task, keeps the others as they are and in
  order, and returns true. The first half holds (\<open>delete_task_absent\<close>), and delete keeps
  every task with another id, in order (\<open>delete_task_present\<close>). But the store reached by
  two creates, a delete of task 1 and a third create holds two tasks with id 2, and
  delete of 2 removes both.
\<close>

theorem delete_removes_both_duplicates:
  "length (run
     [Create ''t1'' (PStr ''a'') (PStr []) (PStr ''medium'') PNone,
      Create ''t2'' (PStr ''b'') (PStr []) (PStr ''medium'') PNone,
      Delete (PInt 1),
      Create ''t3'' (PStr ''c'') (PStr []) (PStr ''medium'') PNone]) = 2
   \<and> delete_task (run
     [Create ''t1'' (PStr ''a'') (PStr []) (PStr ''medium'') PNone,
      Create ''t2'' (PStr ''b'') (PStr []) (PStr ''medium'') PNone,
      Delete (PInt 1),
      Create ''t3'' (PStr ''c'') (PStr []) (PStr ''medium'') PNone]) (PInt 2) = ([], True)"
  by (simp add: run_def create_task_def delete_task_def Let_def)

section \<open>Properties of the agent\<close>

subsection \<open>Helper facts\<close>

lemma py_in_occurs: "py_in word s = occurs word s"
proof (induction s)
  case Nil
  show ?case by (simp add: occurs_def)
next
  case (Cons c cs)
  have "occurs word (c # cs) = (prefix word (c # cs) \<or> occurs word cs)"
  proof
    assume "occurs word (c # cs)"
    then obtain pre suf where eq: "c # cs = pre @ word @ suf"
      by (auto simp: occurs_def)
    show "prefix word (c # cs) \<or> occurs word cs"
    proof (cases pre)
      case Nil
      with eq show ?thesis by (simp add: prefix_def)
    next
      case (Cons p ps)
      with eq have "cs = ps @ word @ suf" by simp
      then show ?thesis by (auto simp: occurs_def)
    qed
  next
    assume "prefix word (c # cs) \<or> occurs word cs"
    then show "occurs word (c # cs)"
    proof
      assume "prefix word (c # cs)"
      then obtain suf where "c # cs = [] @ word @ suf"
        by (auto simp: prefix_def)
      then show ?thesis unfolding occurs_def by blast
    next
      assume "occurs word cs"
      then obtain pre suf where "cs = pre @ word @ suf"
        by (auto simp: occurs_def)
      then have "c # cs = (c # pre) @ word @ suf" by simp
      then show ?thesis unfolding occurs_def by blast
    qed
  qed
  with Cons show ?case by simp
qed

lemma any_in_occurs: "any_in wrds s = (\<exists>word \<in> set wrds. occurs word s)"
  by (simp add: any_in_def list_ex_iff py_in_occurs)

lemma occurs_lower:
  assumes "occurs word s" and "lower word = word"
  shows "occurs word (lower s)"
proof -
  from assms(1) obtain pre suf where "s = pre @ word @ suf"
    by (auto simp: occurs_def)
  then have "lower s = lower pre @ lower word @ lower suf"
    by (simp add: lower_def)
  with assms(2) have "lower s = lower pre @ word @ lower suf"
    by simp
  then show ?thesis
    unfolding occurs_def by blast
qed

lemma lower_char_fixed:
  "lower_char CHR ''a'' = CHR ''a''" "lower_char CHR ''c'' = CHR ''c''"
  "lower_char CHR ''d'' = CHR ''d''" "lower_char CHR ''e'' = CHR ''e''"
  "lower_char CHR ''g'' = CHR ''g''" "lower_char CHR ''h'' = CHR ''h''"
  "lower_char CHR ''i'' = CHR ''i''" "lower_char CHR ''k'' = CHR ''k''"
  "lower_char CHR ''l'' = CHR ''l''" "lower_char CHR ''n'' = CHR ''n''"
  "lower_char CHR ''o'' = CHR ''o''" "lower_char CHR ''r'' = CHR ''r''"
  "lower_char CHR ''s'' = CHR ''s''" "lower_char CHR ''t'' = CHR ''t''"
  "lower_char CHR ''w'' = CHR ''w''" "lower_char CHR '' '' = CHR '' ''"
  by (simp_all add: lower_char_def)

lemma lower_keywords:
  "lower ''create'' = ''create''" "lower ''add'' = ''add''" "lower ''new task'' = ''new task''"
  "lower ''list'' = ''list''" "lower ''show'' = ''show''" "lower ''get tasks'' = ''get tasks''"
  "lower ''tasks'' = ''tasks''"
  by (simp_all add: lower_def lower_char_fixed)

lemma action_parse_user_request:
  "action (parse_user_request s) =
     (if \<exists>word \<in> {''create'', ''add'', ''new task''}. occurs word (lower s) then ''create''
      else if \<exists>word \<in> {''list'', ''show'', ''get tasks'', ''tasks''}. occurs word (lower s)
        then ''list''
      else if \<exists>word \<in> {''update'', ''change'', ''modify'', ''mark''}. occurs word (lower s)
        then ''update''
      else if \<exists>word \<in> {''statistics'', ''stats'', ''summary'', ''overview''}.
                occurs word (lower s)
        then ''statistics''
      else if \<exists>word \<in> {''delete'', ''remove''}. occurs word (lower s) then ''delete''
      else ''general'')"
  unfolding parse_user_request_def Let_def any_in_occurs
  by (simp only: set_simps if_distrib [of action] parsed.simps)

lemma classify_spec_unfold:
  "classify_spec s =
     (if \<exists>word \<in> {''create'', ''add'', ''new task''}. occurs word (lower s) then ''create''
      else if \<exists>word \<in> {''list'', ''show'', ''get tasks'', ''tasks''}. occurs word (lower s)
        then ''list''
      else if \<exists>word \<in> {''update'', ''change'', ''modify'', ''mark''}. occurs word (lower s)
        then ''update''
      else if \<exists>word \<in> {''statistics'', ''stats'', ''summary'', ''overview''}.
                occurs word (lower s)
        then ''statistics''
      else if \<exists>word \<in> {''delete'', ''remove''}. occurs word (lower s) then ''delete''
      else ''general'')"
  unfolding classify_spec_def categories_def
  by (simp only: first_match.simps)

lemma chain_general:
  "((if A then ''create'' else if B then ''list'' else if C then ''update''
     else if D then ''statistics'' else if E then ''delete'' else ''general'') = ''general'')
   = (\<not> A \<and> \<not> B \<and> \<not> C \<and> \<not> D \<and> \<not> E)"
  by simp

lemma no_keyword_occurs:
  "(\<forall>(tag, keywords) \<in> set categories. \<forall>word \<in> keywords. \<not> occurs word s)
   = (\<not> (\<exists>word \<in> {''create'', ''add'', ''new task''}. occurs word s)
      \<and> \<not> (\<exists>word \<in> {''list'', ''show'', ''get tasks'', ''tasks''}. occurs word s)
      \<and> \<not> (\<exists>word \<in> {''update'', ''change'', ''modify'', ''mark''}. occurs word s)
      \<and> \<not> (\<exists>word \<in> {''statistics'', ''stats'', ''summary'', ''overview''}. occurs word s)
      \<and> \<not> (\<exists>word \<in> {''delete'', ''remove''}. occurs word s))"
  unfolding categories_def
  by (simp only: list.set ball_simps bex_simps prod.case simp_thms de_Morgan_disj conj_assoc)

lemma create_keyword_lower:
  assumes "\<exists>word \<in> {''create'', ''add'', ''new task''}. occurs word s \<or> occurs word (lower s)"
  shows "\<exists>word \<in> {''create'', ''add'', ''new task''}. occurs word (lower s)"
proof -
  from assms obtain word where w: "word \<in> {''create'', ''add'', ''new task''}"
    and o: "occurs word s \<or> occurs word (lower s)"
    by blast
  from w have "lower word = word"
    using lower_keywords by blast
  with o have "occurs word (lower s)"
    using occurs_lower by blast
  with w show ?thesis
    by blast
qed

subsection \<open>Classification\<close>

text \<open>
  Claim C7. The classifier's answer depends on the text alone and is the answer of the
  specified policy (\<open>classify_spec\<close>: lower-case the text, take the first category, in the
  order create, list, update, statistics, delete, one of whose keywords occurs in it,
  and general when there is none); the request is handed on unchanged. The answer is
  general exactly when no keyword of any category occurs in the lower-cased text. A text
  in which a create keyword and a list keyword occur, as written or after lower-casing,
  is classified as create.
\<close>

theorem classify_first_match:
  "action (parse_user_request s) = classify_spec s
   \<and> request (parse_user_request s) = s
   \<and> ((action (parse_user_request s) = ''general'') =
        (\<forall>(tag, keywords) \<in> set categories. \<forall>word \<in> keywords. \<not> occurs word (lower s)))
   \<and> ((\<exists>word \<in> {''create'', ''add'', ''new task''}. occurs word s \<or> occurs word (lower s))
        \<and> (\<exists>word \<in> {''list'', ''show'', ''get tasks'', ''tasks''}.
              occurs word s \<or> occurs word (lower s))
      \<longrightarrow> action (parse_user_request s) = ''create'')"
proof (intro conjI impI)
  show "action (parse_user_request s) = classify_spec s"
    by (simp only: action_parse_user_request classify_spec_unfold)
  show "request (parse_user_request s) = s"
    by (simp add: parse_user_request_def Let_def)
  show "(action (parse_user_request s) = ''general'') =
        (\<forall>(tag, keywords) \<in> set categories. \<forall>word \<in> keywords. \<not> occurs word (lower s))"
    by (simp only: action_parse_user_request chain_general no_keyword_occurs)
  assume "(\<exists>word \<in> {''create'', ''add'', ''new task''}. occurs word s \<or> occurs word (lower s))
        \<and> (\<exists>word \<in> {''list'', ''show'', ''get tasks'', ''tasks''}.
              occurs word s \<or> occurs word (lower s))"
  then have "\<exists>word \<in> {''create'', ''add'', ''new task''}. occurs word (lower s)"
    by (intro create_keyword_lower) blast
  then show "action (parse_user_request s) = ''create''"
    by (simp only: action_parse_user_request if_True)
qed

theorem classify_first_match_witness:
  "(\<exists>word \<in> {''create'', ''add'', ''new task''}.
       occurs word ''Create a list of tasks'' \<or> occurs word (lower ''Create a list of tasks''))
   \<and> (\<exists>word \<in> {''list'', ''show'', ''get tasks'', ''tasks''}.
       occurs word ''Create a list of tasks'' \<or> occurs word (lower ''Create a list of tasks''))
   \<and> action (parse_user_request ''Create a list of tasks'') = ''create''
   \<and> classify_spec ''Create a list of tasks'' = ''create''"
proof -
  have lo: "lower ''Create a list of tasks'' = ''create a list of tasks''"
    by (simp add: lower_def lower_char_def char_of_eq_iff)
  have a: "occurs ''create'' (lower ''Create a list of tasks'')"
    unfolding py_in_occurs [symmetric] lo by simp
  have b: "occurs ''list'' ''Create a list of tasks''"
    unfolding py_in_occurs [symmetric] by simp
  have c: "\<exists>word \<in> {''create'', ''add'', ''new task''}.
       occurs word ''Create a list of tasks'' \<or> occurs word (lower ''Create a list of tasks'')"
    using a by blast
  have l: "\<exists>word \<in> {''list'', ''show'', ''get tasks'', ''tasks''}.
       occurs word ''Create a list of tasks'' \<or> occurs word (lower ''Create a list of tasks'')"
    using b by blast
  note inst = classify_first_match [of "''Create a list of tasks''"]
  from inst c l have p: "action (parse_user_request ''Create a list of tasks'') = ''create''"
    by (elim conjE impE) (rule conjI)
  from inst have "action (parse_user_request ''Create a list of tasks'')
                   = classify_spec ''Create a list of tasks''"
    by (elim conjE)
  with p have "classify_spec ''Create a list of tasks'' = ''create''"
    by (simp only:)
  with c l p show ?thesis
    by (intro conjI)
qed

subsection \<open>Dispatching\<close>

lemma extract_task_info_failed:
  assumes "generate_content (ExtractionPrompt user_request) = None
           \<or> (\<exists>response. generate_content (ExtractionPrompt user_request) = Some response
                 \<and> (case clean_response response of
                       None \<Rightarrow> True
                     | Some response_text \<Rightarrow> loads response_text = None))"
  shows "extract_task_info generate_content loads user_request = PDict []"
proof (cases "generate_content (ExtractionPrompt user_request)")
  case None
  then show ?thesis
    by (simp add: extract_task_info_def)
next
  case generated: (Some response)
  with assms have unparsed: "case clean_response response of
                               None \<Rightarrow> True
                             | Some response_text \<Rightarrow> loads response_text = None"
    by simp
  show ?thesis
  proof (cases "clean_response response")
    case None
    with generated show ?thesis
      by (simp add: extract_task_info_def)
  next
    case (Some response_text)
    with unparsed have "loads response_text = None"
      by simp
    with generated Some show ?thesis
      by (simp add: extract_task_info_def)
  qed
qed

lemma execute_action_create_empty:
  "execute_action TaskTools db now ''create'' (PDict [])
     = (db @ [\<lparr> id_task = int (length db) + 1, title = PStr ''Untitled Task'',
                description = PStr [], priority = PStr ''medium'', due_date = PNone,
                status = PStr ''pending'', created_at = now, completed_at = None \<rparr>],
        TaskCreated \<lparr> id_task = int (length db) + 1, title = PStr ''Untitled Task'',
                description = PStr [], priority = PStr ''medium'', due_date = PNone,
                status = PStr ''pending'', created_at = now, completed_at = None \<rparr>)"
  by (simp add: execute_action_def TaskTools_def create_task_def dict_get_def Let_def)

lemma execute_action_create_not_dict:
  "\<forall>kvs. params \<noteq> PDict kvs \<Longrightarrow>
     execute_action tools db now ''create'' params = (db, ActionFailed AttributeError)"
  by (cases params) (simp_all add: execute_action_def)

lemma process_request_store:
  "fst (process_request tools generate_content loads db now user_request)
     = fst (execute_action tools db now (action (parse_user_request user_request))
              (if action (parse_user_request user_request)
                    \<in> set [''create'', ''update'', ''delete'']
               then extract_task_info generate_content loads user_request
               else PDict []))"
  by (simp add: process_request_def Let_def split: prod.splits option.splits)

text \<open>
  Claim C8. For a request classified as create, when the extraction fails (the
  text-generation call raises, or the cleaning of its output raises, or the JSON parser
  raises on the cleaned output), the extraction returns the empty dictionary, the
  dispatcher run on it appends a task titled "Untitled Task" (empty description, medium
  priority, no due date, pending) and reports it, and the store after the whole request
  is the store before with that task appended, whatever the model then answers to the
  response prompt. (Output that the parser accepts is returned as parsed, also when it
  is not a dictionary; \<open>execute_action_create_not_dict\<close> is what the dispatcher does then.)
\<close>

theorem create_survives_failed_extraction:
  assumes "action (parse_user_request user_request) = ''create''"
    and "generate_content (ExtractionPrompt user_request) = None
         \<or> (\<exists>response. generate_content (ExtractionPrompt user_request) = Some response
               \<and> (case clean_response response of
                     None \<Rightarrow> True
                   | Some response_text \<Rightarrow> loads response_text = None))"
  shows "extract_task_info generate_content loads user_request = PDict []
       \<and> execute_action TaskTools db now ''create''
             (extract_task_info generate_content loads user_request)
           = (db @ [\<lparr> id_task = int (length db) + 1, title = PStr ''Untitled Task'',
                      description = PStr [], priority = PStr ''medium'', due_date = PNone,
                      status = PStr ''pending'', created_at = now, completed_at = None \<rparr>],
              TaskCreated \<lparr> id_task = int (length db) + 1, title = PStr ''Untitled Task'',
                      description = PStr [], priority = PStr ''medium'', due_date = PNone,
                      status = PStr ''pending'', created_at = now, completed_at = None \<rparr>)
       \<and> fst (process_request TaskTools generate_content loads db now user_request)
           = db @ [\<lparr> id_task = int (length db) + 1, title = PStr ''Untitled Task'',
                     description = PStr [], priority = PStr ''medium'', due_date = PNone,
                     status = PStr ''pending'', created_at = now, completed_at = None \<rparr>]"
proof -
  have e: "extract_task_info generate_content loads user_request = PDict []"
    using assms(2) by (rule extract_task_info_failed)
  have "fst (process_request TaskTools generate_content loads db now user_request)
          = fst (execute_action TaskTools db now ''create'' (PDict []))"
    by (simp add: process_request_store assms(1) e)
  then show ?thesis
    by (simp add: e execute_action_create_empty)
qed

theorem create_survives_failed_extraction_witness:
  "action (parse_user_request ''Add a task'') = ''create''
   \<and> extract_task_info (\<lambda>p. None) (\<lambda>r. None) ''Add a task'' = PDict []
   \<and> fst (process_request TaskTools (\<lambda>p. None) (\<lambda>r. None) [] ''t1'' ''Add a task'')
       = [\<lparr> id_task = 1, title = PStr ''Untitled Task'', description = PStr [],
            priority = PStr ''medium'', due_date = PNone, status = PStr ''pending'',
            created_at = ''t1'', completed_at = None \<rparr>]"
proof -
  have lo: "lower ''Add a task'' = ''add a task''"
    by (simp add: lower_def lower_char_def char_of_eq_iff)
  have "occurs ''add'' (lower ''Add a task'')"
    unfolding py_in_occurs [symmetric] lo by simp
  then have "\<exists>word \<in> {''create'', ''add'', ''new task''}. occurs word (lower ''Add a task'')"
    by blast
  then have a: "action (parse_user_request ''Add a task'') = ''create''"
    by (simp only: action_parse_user_request if_True)
  have g: "(\<lambda>p. None :: string option) (ExtractionPrompt ''Add a task'') = None
           \<or> (\<exists>response. (\<lambda>p. None :: string option) (ExtractionPrompt ''Add a task'')
                            = Some response
                 \<and> (case clean_response response of
                       None \<Rightarrow> True
                     | Some response_text \<Rightarrow> (\<lambda>r. None :: pyval option) response_text = None))"
    by simp
  from create_survives_failed_extraction [OF a g, of "[]" "''t1''"] a show ?thesis
    by simp
qed

text \<open>
  Claim C9. For the actions update and delete, when the parameter dictionary has no
  task\_id the dispatcher returns the message that a task ID is required and the store
  it was given. This holds for every behaviour of the store operations it holds, those
  that would change the store included: none of them is called.
\<close>

theorem missing_task_id_no_store_call:
  assumes "map_of kvs ''task_id'' = None"
  shows "execute_action tools db now ''update'' (PDict kvs)
           = (db, Text ''Error: Task ID is required for updates.'')
       \<and> execute_action tools db now ''delete'' (PDict kvs)
           = (db, Text ''Error: Task ID is required for deletion.'')"
  using assms by (simp add: execute_action_def dict_get_def)

theorem missing_task_id_no_store_call_witness:
  "map_of [(''status'', PStr ''completed'')] ''task_id'' = None
   \<and> execute_action
        \<lparr> create_task_of = create_task, list_tasks_of = list_tasks,
          update_task_of = (\<lambda>db now task_id ttl descr prio st due. ([], None)),
          delete_task_of = (\<lambda>db task_id. ([], True)),
          get_statistics_of = get_statistics \<rparr>
        [\<lparr> id_task = 1, title = PStr ''a'', description = PStr [], priority = PStr ''low'',
           due_date = PNone, status = PStr ''pending'', created_at = ''t0'',
           completed_at = None \<rparr>]
        ''t1'' ''update'' (PDict [(''status'', PStr ''completed'')])
     = ([\<lparr> id_task = 1, title = PStr ''a'', description = PStr [], priority = PStr ''low'',
            due_date = PNone, status = PStr ''pending'', created_at = ''t0'',
            completed_at = None \<rparr>],
        Text ''Error: Task ID is required for updates.'')
   \<and> execute_action TaskTools
        [\<lparr> id_task = 1, title = PStr ''a'', description = PStr [], priority = PStr ''low'',
           due_date = PNone, status = PStr ''pending'', created_at = ''t0'',
           completed_at = None \<rparr>]
        ''t1'' ''delete'' (PDict [(''status'', PStr ''completed'')])
     = ([\<lparr> id_task = 1, title = PStr ''a'', description = PStr [], priority = PStr ''low'',
            due_date = PNone, status = PStr ''pending'', created_at = ''t0'',
            completed_at = None \<rparr>],
        Text ''Error: Task ID is required for deletion.'')"
proof -
  have h: "map_of [(''status'', PStr ''completed'')] ''task_id'' = None"
    by simp
  from h missing_task_id_no_store_call [OF h] show ?thesis
    by blast
qed

end
